theory Spec2Isabelle
  imports Complex_Main
begin

section \<open>Black-Scholes pricing and the parameter sweep of main.py\<close>

text \<open>
  The program computes with Python floats and numpy float64 scalars, both IEEE 754
  binary64. A float is modelled as a value of \<open>fval\<close>: a finite number (\<open>Fin x\<close>, with
  \<open>Fin 0\<close> the positive zero), the negative zero, the two infinities, or NaN. Addition,
  subtraction, multiplication, division and the square root round their exact result to
  the nearest binary64 number (ties to even), overflow to an infinity and underflow to a
  zero. The results of \<open>np.log\<close>, \<open>np.exp\<close>, \<open>norm.cdf\<close> and \<open>**\<close> on finite
  arguments are library code that the sources do not determine: they are a parameter
  \<open>lib\<close> of every function.
\<close>

subsection \<open>Float values and rounding\<close>

datatype fval = Fin real | NZero | PInf | NInf | NaN

fun is_nan :: "fval \<Rightarrow> bool" where
  "is_nan NaN = True"
| "is_nan _ = False"

fun is_inf :: "fval \<Rightarrow> bool" where
  "is_inf PInf = True"
| "is_inf NInf = True"
| "is_inf _ = False"

fun is_zero :: "fval \<Rightarrow> bool" where
  "is_zero (Fin x) = (x = 0)"
| "is_zero NZero = True"
| "is_zero _ = False"

text \<open>The sign bit: set on negative numbers, the negative zero and minus infinity.\<close>

fun sign_bit :: "fval \<Rightarrow> bool" where
  "sign_bit (Fin x) = (x < 0)"
| "sign_bit NZero = True"
| "sign_bit NInf = True"
| "sign_bit _ = False"

text \<open>The real number a finite float stands for.\<close>

fun rv :: "fval \<Rightarrow> real" where
  "rv (Fin x) = x"
| "rv _ = 0"

definition zero_of :: "bool \<Rightarrow> fval" where
  "zero_of neg = (if neg then NZero else Fin 0)"

definition inf_of :: "bool \<Rightarrow> fval" where
  "inf_of neg = (if neg then NInf else PInf)"

text \<open>
  Rounding to binary64. The exponent of \<open>x\<close> is that of its leading bit, not below
  \<open>-1022\<close> (the subnormal range); the quantum is the weight of the last of the 53 bits;
  \<open>x\<close> is rounded to the nearest multiple of the quantum, a tie going to the even
  multiple. A result of magnitude \<open>2\<^sup>1\<^sup>0\<^sup>2\<^sup>4\<close> or more is an infinity.
\<close>

definition expo :: "real \<Rightarrow> int" where
  "expo x = max \<lfloor>log 2 \<bar>x\<bar>\<rfloor> (- 1022)"

definition quantum :: "real \<Rightarrow> real" where
  "quantum x = 2 powr real_of_int (expo x - 52)"

definition rne :: "real \<Rightarrow> int" where
  "rne y = (let f = \<lfloor>y\<rfloor> in
            if y - real_of_int f < 1 / 2 then f
            else if 1 / 2 < y - real_of_int f then f + 1
            else if even f then f else f + 1)"

definition quantize :: "real \<Rightarrow> real" where
  "quantize x = (if x = 0 then 0 else real_of_int (rne (x / quantum x)) * quantum x)"

definition rnd :: "real \<Rightarrow> fval" where
  "rnd x = (let y = quantize x in
            if 2 ^ 1024 \<le> \<bar>y\<bar> then inf_of (x < 0)
            else if y = 0 then zero_of (x < 0)
            else Fin y)"

subsection \<open>Arithmetic\<close>

fun fneg :: "fval \<Rightarrow> fval" where
  "fneg (Fin x) = (if x = 0 then NZero else Fin (- x))"
| "fneg NZero = Fin 0"
| "fneg PInf = NInf"
| "fneg NInf = PInf"
| "fneg NaN = NaN"

definition fadd :: "fval \<Rightarrow> fval \<Rightarrow> fval" where
  "fadd a b =
     (if is_nan a \<or> is_nan b then NaN
      else if is_inf a then (if is_inf b \<and> b \<noteq> a then NaN else a)
      else if is_inf b then b
      else if rv a + rv b = 0 then (if a = NZero \<and> b = NZero then NZero else Fin 0)
      else rnd (rv a + rv b))"

definition fsub :: "fval \<Rightarrow> fval \<Rightarrow> fval" where
  "fsub a b = fadd a (fneg b)"

definition fmul :: "fval \<Rightarrow> fval \<Rightarrow> fval" where
  "fmul a b =
     (if is_nan a \<or> is_nan b then NaN
      else if (is_inf a \<and> is_zero b) \<or> (is_zero a \<and> is_inf b) then NaN
      else if is_inf a \<or> is_inf b then inf_of (sign_bit a \<noteq> sign_bit b)
      else if is_zero a \<or> is_zero b then zero_of (sign_bit a \<noteq> sign_bit b)
      else rnd (rv a * rv b))"

text \<open>numpy's division: a zero divisor gives an infinity or NaN (and a warning).\<close>

definition fdiv :: "fval \<Rightarrow> fval \<Rightarrow> fval" where
  "fdiv a b =
     (if is_nan a \<or> is_nan b then NaN
      else if (is_inf a \<and> is_inf b) \<or> (is_zero a \<and> is_zero b) then NaN
      else if is_inf a \<or> is_zero b then inf_of (sign_bit a \<noteq> sign_bit b)
      else if is_inf b \<or> is_zero a then zero_of (sign_bit a \<noteq> sign_bit b)
      else rnd (rv a / rv b))"

text \<open>\<open>np.sqrt\<close>: NaN on negative numbers.\<close>

fun fsqrt :: "fval \<Rightarrow> fval" where
  "fsqrt (Fin x) = (if x < 0 then NaN else if x = 0 then Fin 0 else rnd (sqrt x))"
| "fsqrt NZero = NZero"
| "fsqrt PInf = PInf"
| "fsqrt NInf = NaN"
| "fsqrt NaN = NaN"

subsection \<open>Python floats and numpy scalars\<close>

text \<open>
  The pricing functions are called with Python floats for \<open>S\<close> and \<open>sigma\<close> (the
  widget values, lines 53 and 54), with numpy float64 scalars for both (elements of
  \<open>spot_prices\<close> and \<open>volatilities\<close>, lines 89 and 90), and with a numpy spot and the
  Python \<open>sigma\<close> (lines 128 and 129). The two kinds differ where Python raises:
  \<open>S / K\<close> raises ZeroDivisionError on a zero divisor and \<open>sigma ** 2\<close> raises
  OverflowError when the result overflows, where numpy returns an infinity or NaN (and
  warns). \<open>K\<close>, \<open>T\<close> and \<open>r\<close> are Python floats in every call.
\<close>

datatype error = ZeroDivisionError | OverflowError

datatype pynum = PyFloat fval | NpFloat64 fval

fun num :: "pynum \<Rightarrow> fval" where
  "num (PyFloat x) = x"
| "num (NpFloat64 x) = x"

fun is_py :: "pynum \<Rightarrow> bool" where
  "is_py (PyFloat x) = True"
| "is_py (NpFloat64 x) = False"

text \<open>\<open>S / K\<close>.\<close>

definition truediv :: "pynum \<Rightarrow> fval \<Rightarrow> error + fval" where
  "truediv a b =
     (if is_py a \<and> is_zero b then Inl ZeroDivisionError else Inr (fdiv (num a) b))"

subsection \<open>Library functions\<close>

text \<open>
  What \<open>np.log\<close>, \<open>np.exp\<close>, \<open>norm.cdf\<close> and the power \<open>x ** 2\<close> return on a
  finite argument (for the logarithm a positive one, for the power a non-zero one).
\<close>

record libm =
  lib_log :: "real \<Rightarrow> fval"
  lib_exp :: "real \<Rightarrow> fval"
  lib_cdf :: "real \<Rightarrow> fval"
  lib_pow2 :: "real \<Rightarrow> fval"

text \<open>\<open>np.log\<close>: minus infinity at either zero, NaN on negative numbers.\<close>

fun flog :: "libm \<Rightarrow> fval \<Rightarrow> fval" where
  "flog lib (Fin x) = (if x = 0 then NInf else if x < 0 then NaN else lib_log lib x)"
| "flog lib NZero = NInf"
| "flog lib PInf = PInf"
| "flog lib NInf = NaN"
| "flog lib NaN = NaN"

text \<open>\<open>np.exp\<close>.\<close>

fun fexp :: "libm \<Rightarrow> fval \<Rightarrow> fval" where
  "fexp lib (Fin x) = lib_exp lib x"
| "fexp lib NZero = Fin 1"
| "fexp lib PInf = PInf"
| "fexp lib NInf = Fin 0"
| "fexp lib NaN = NaN"

text \<open>\<open>norm.cdf\<close>: 1 at plus infinity, 0 at minus infinity, NaN at NaN.\<close>

fun cdf :: "libm \<Rightarrow> fval \<Rightarrow> fval" where
  "cdf lib (Fin x) = lib_cdf lib x"
| "cdf lib NZero = lib_cdf lib 0"
| "cdf lib PInf = Fin 1"
| "cdf lib NInf = Fin 0"
| "cdf lib NaN = NaN"

text \<open>
  \<open>sigma ** 2\<close>. The square of a zero is the positive zero and that of an infinity is
  plus infinity. On a finite non-zero Python float an infinite result raises
  OverflowError; on a numpy scalar it is returned.
\<close>

fun square :: "libm \<Rightarrow> fval \<Rightarrow> fval" where
  "square lib (Fin x) = (if x = 0 then Fin 0 else lib_pow2 lib x)"
| "square lib NZero = Fin 0"
| "square lib PInf = PInf"
| "square lib NInf = PInf"
| "square lib NaN = NaN"

definition fpow2 :: "libm \<Rightarrow> pynum \<Rightarrow> error + fval" where
  "fpow2 lib a =
     (if is_py a \<and> \<not> is_inf (num a) \<and> is_inf (square lib (num a)) then Inl OverflowError
      else Inr (square lib (num a)))"

subsection \<open>The pricing functions (main.py, lines 9 to 19)\<close>

text \<open>
  Python evaluates the operands from left to right: in line 10 (and 16) \<open>S / K\<close> comes
  before \<open>sigma ** 2\<close>, and an exception ends the call.
\<close>

definition black_scholes_call ::
  "libm \<Rightarrow> pynum \<Rightarrow> fval \<Rightarrow> fval \<Rightarrow> fval \<Rightarrow> pynum \<Rightarrow> error + fval" where
  "black_scholes_call lib S K T r sigma =
     (case truediv S K of Inl e \<Rightarrow> Inl e | Inr q1 \<Rightarrow>
      case fpow2 lib sigma of Inl e \<Rightarrow> Inl e | Inr p1 \<Rightarrow>
      let d1 = fdiv (fadd (flog lib q1) (fmul (fadd r (fmul (Fin 0.5) p1)) T))
                    (fmul (num sigma) (fsqrt T))
      in
      case truediv S K of Inl e \<Rightarrow> Inl e | Inr q2 \<Rightarrow>
      case fpow2 lib sigma of Inl e \<Rightarrow> Inl e | Inr p2 \<Rightarrow>
      let d2 = fdiv (fadd (flog lib q2) (fmul (fsub r (fmul (Fin 0.5) p2)) T))
                    (fmul (num sigma) (fsqrt T));
          call_price = fsub (fmul (num S) (cdf lib d1))
                            (fmul (fmul K (fexp lib (fmul (fneg r) T))) (cdf lib d2))
      in Inr call_price)"

definition black_scholes_put ::
  "libm \<Rightarrow> pynum \<Rightarrow> fval \<Rightarrow> fval \<Rightarrow> fval \<Rightarrow> pynum \<Rightarrow> error + fval" where
  "black_scholes_put lib S K T r sigma =
     (case truediv S K of Inl e \<Rightarrow> Inl e | Inr q1 \<Rightarrow>
      case fpow2 lib sigma of Inl e \<Rightarrow> Inl e | Inr p1 \<Rightarrow>
      let d1 = fdiv (fadd (flog lib q1) (fmul (fadd r (fmul (Fin 0.5) p1)) T))
                    (fmul (num sigma) (fsqrt T))
      in
      case truediv S K of Inl e \<Rightarrow> Inl e | Inr q2 \<Rightarrow>
      case fpow2 lib sigma of Inl e \<Rightarrow> Inl e | Inr p2 \<Rightarrow>
      let d2 = fdiv (fadd (flog lib q2) (fmul (fsub r (fmul (Fin 0.5) p2)) T))
                    (fmul (num sigma) (fsqrt T));
          put_price = fsub (fmul (fmul K (fexp lib (fmul (fneg r) T))) (cdf lib (fneg d2)))
                           (fmul (num S) (cdf lib (fneg d1)))
      in Inr put_price)"

subsection \<open>Parts of lines 10 to 12\<close>





subsection \<open>numpy's array functions\<close>

text \<open>
  \<open>np.linspace start stop num\<close>, with every operation rounded as numpy does it:
  \<open>delta = stop - start\<close>, \<open>step = delta / (num - 1)\<close>, the samples are
  \<open>i * step + start\<close> (or \<open>(i / (num - 1)) * delta + start\<close> when the step is zero),
  and the last sample is set to \<open>stop\<close>. The sliders bound the arguments (the spot by
  0 and 200, the volatility by 0.01 and 1), so that the samples are finite: they are
  kept as reals.
\<close>

definition linspace :: "real \<Rightarrow> real \<Rightarrow> nat \<Rightarrow> real list" where
  "linspace start stop n =
     (let delta = quantize (stop - start);
          step = quantize (delta / real (n - 1));
          y = map (\<lambda>i. if step = 0 then quantize (quantize (real i / real (n - 1)) * delta)
                        else quantize (real i * step)) [0..<n];
          y = map (\<lambda>v. quantize (v + start)) y
      in if 1 < n then y[n - 1 := stop] else y)"

definition np_append :: "real list \<Rightarrow> real \<Rightarrow> real list" where
  "np_append arr v = arr @ [v]"

text \<open>\<open>np.unique\<close> sorts, then keeps each element that differs from the one before it.\<close>

definition unique :: "real list \<Rightarrow> real list" where
  "unique ar = remdups_adj (sort ar)"

text \<open>A list comprehension whose body may raise: the first exception ends it.\<close>

fun comprehension :: "('a \<Rightarrow> error + 'b) \<Rightarrow> 'a list \<Rightarrow> error + 'b list" where
  "comprehension f [] = Inr []"
| "comprehension f (x # xs) =
     (case f x of
        Inl e \<Rightarrow> Inl e
      | Inr y \<Rightarrow> (case comprehension f xs of Inl e \<Rightarrow> Inl e | Inr ys \<Rightarrow> Inr (y # ys)))"

subsection \<open>The script (main.py, lines 53, 54, 83 to 90, 128 and 129)\<close>

text \<open>
  The widget values \<open>S\<close>, \<open>K\<close>, \<open>T\<close>, \<open>r\<close>, \<open>sigma\<close>, \<open>min_S\<close>, \<open>max_S\<close>,
  \<open>min_sigma\<close> and \<open>max_sigma\<close> are finite Python floats. Lines 53 and 54 run before
  the sweep: when one of them raises, the script ends there and there is no sweep.
\<close>

definition call_price :: "libm \<Rightarrow> real \<Rightarrow> real \<Rightarrow> real \<Rightarrow> real \<Rightarrow> real \<Rightarrow> error + fval" where
  "call_price lib S K T r sigma =
     black_scholes_call lib (PyFloat (Fin S)) (Fin K) (Fin T) (Fin r) (PyFloat (Fin sigma))"

definition put_price :: "libm \<Rightarrow> real \<Rightarrow> real \<Rightarrow> real \<Rightarrow> real \<Rightarrow> real \<Rightarrow> error + fval" where
  "put_price lib S K T r sigma =
     black_scholes_put lib (PyFloat (Fin S)) (Fin K) (Fin T) (Fin r) (PyFloat (Fin sigma))"

definition spot_prices :: "real \<Rightarrow> real \<Rightarrow> real list" where
  "spot_prices min_S max_S = linspace min_S max_S 10"

definition volatilities :: "real \<Rightarrow> real \<Rightarrow> real \<Rightarrow> real list" where
  "volatilities min_sigma max_sigma sigma =
     unique (np_append (linspace min_sigma max_sigma 10) sigma)"

definition call_prices ::
  "libm \<Rightarrow> real \<Rightarrow> real \<Rightarrow> real \<Rightarrow> real list \<Rightarrow> real list \<Rightarrow> error + fval list list" where
  "call_prices lib K T r spots vols =
     comprehension (\<lambda>v. comprehension
        (\<lambda>S. black_scholes_call lib (NpFloat64 (Fin S)) (Fin K) (Fin T) (Fin r) (NpFloat64 (Fin v)))
        spots) vols"

definition put_prices ::
  "libm \<Rightarrow> real \<Rightarrow> real \<Rightarrow> real \<Rightarrow> real list \<Rightarrow> real list \<Rightarrow> error + fval list list" where
  "put_prices lib K T r spots vols =
     comprehension (\<lambda>v. comprehension
        (\<lambda>S. black_scholes_put lib (NpFloat64 (Fin S)) (Fin K) (Fin T) (Fin r) (NpFloat64 (Fin v)))
        spots) vols"

text \<open>The y values of the two traces of \<open>fig_line_spot\<close> (lines 128 and 129).\<close>

definition line_spot_call ::
  "libm \<Rightarrow> real \<Rightarrow> real \<Rightarrow> real \<Rightarrow> real \<Rightarrow> real list \<Rightarrow> error + fval list" where
  "line_spot_call lib K T r sigma spots =
     comprehension
       (\<lambda>S. black_scholes_call lib (NpFloat64 (Fin S)) (Fin K) (Fin T) (Fin r) (PyFloat (Fin sigma)))
       spots"

definition line_spot_put ::
  "libm \<Rightarrow> real \<Rightarrow> real \<Rightarrow> real \<Rightarrow> real \<Rightarrow> real list \<Rightarrow> error + fval list" where
  "line_spot_put lib K T r sigma spots =
     comprehension
       (\<lambda>S. black_scholes_put lib (NpFloat64 (Fin S)) (Fin K) (Fin T) (Fin r) (PyFloat (Fin sigma)))
       spots"

subsection \<open>A correctly rounding library\<close>

text \<open>
  One library for statements at given inputs: it returns the exact value of each
  function rounded to binary64. \<open>norm_cdf\<close> is the standard normal distribution
  function: the antiderivative of the density proportional to \<open>exp (- x\<^sup>2 / 2)\<close> that
  tends to 0 at minus infinity and to 1 at plus infinity, constructed from the power
  series of the integral of \<open>exp (- t\<^sup>2 / 2)\<close> from 0 to x and normalised by the
  integral's supremum.
\<close>

definition gauss_coeff :: "nat \<Rightarrow> real" where
  "gauss_coeff k = (- 1 / 2) ^ k / (fact k * (2 * real k + 1))"

definition gauss_series :: "real \<Rightarrow> real" where
  "gauss_series y = (\<Sum>k. gauss_coeff k * y ^ k)"

definition gauss_int :: "real \<Rightarrow> real" where
  "gauss_int x = x * gauss_series (x\<^sup>2)"

definition gauss_total :: real where
  "gauss_total = Sup (range gauss_int)"

definition norm_cdf :: "real \<Rightarrow> real" where
  "norm_cdf x = (1 + gauss_int x / gauss_total) / 2"

definition correctly_rounded :: libm where
  "correctly_rounded =
     \<lparr>lib_log = (\<lambda>x. rnd (ln x)), lib_exp = (\<lambda>x. rnd (exp x)),
      lib_cdf = (\<lambda>x. rnd (norm_cdf x)), lib_pow2 = (\<lambda>x. rnd (x * x))\<rparr>"

section \<open>Rounding\<close>

text \<open>
  Zero and the powers of two in range are binary64 numbers, \<open>2\<^sup>1\<^sup>0\<^sup>2\<^sup>4\<close> rounds to plus
  infinity, and a non-negative real up to \<open>2\<^sup>1\<^sup>0\<^sup>2\<^sup>3\<close> rounds to a finite float that is
  not negative.
\<close>

lemma rne_of_int: "rne (real_of_int n) = n"
  by (simp add: rne_def)

lemma quantize_0: "quantize 0 = 0"
  by (simp add: quantize_def)

lemma quantize_power_of_2:
  assumes "- 1022 \<le> k"
  shows "quantize (2 powr real_of_int k) = 2 powr real_of_int k"
    and "quantize (- (2 powr real_of_int k)) = - (2 powr real_of_int k)"
proof -
  have e: "expo (2 powr real_of_int k) = k" "expo (- (2 powr real_of_int k)) = k"
    using assms by (simp_all add: expo_def)
  have q: "2 powr real_of_int k / 2 powr real_of_int (k - 52) = real_of_int (2 ^ 52)"
    by (simp add: powr_diff[symmetric])
  have m: "real_of_int (2 ^ 52) * 2 powr real_of_int (k - 52) = 2 powr real_of_int k"
    by (simp add: powr_diff)
  have "rne (2 powr real_of_int k / 2 powr real_of_int (k - 52)) = 2 ^ 52"
    unfolding q by (rule rne_of_int)
  then show "quantize (2 powr real_of_int k) = 2 powr real_of_int k"
    using m by (simp add: quantize_def quantum_def e)
  have "- (2 powr real_of_int k) / 2 powr real_of_int (k - 52) = real_of_int (- (2 ^ 52))"
    using q by simp
  then have "rne (- (2 powr real_of_int k) / 2 powr real_of_int (k - 52)) = - (2 ^ 52)"
    by (simp only: rne_of_int)
  then show "quantize (- (2 powr real_of_int k)) = - (2 powr real_of_int k)"
    using m by (simp add: quantize_def quantum_def e)
qed

lemma rnd_0: "rnd 0 = Fin 0"
  by (simp add: rnd_def quantize_def zero_of_def)

lemma rnd_power_of_2:
  assumes "- 1022 \<le> k" "k \<le> 1023"
  shows "rnd (2 powr real_of_int k) = Fin (2 powr real_of_int k)"
    and "rnd (- (2 powr real_of_int k)) = Fin (- (2 powr real_of_int k))"
proof -
  have "2 powr real_of_int k < 2 powr 1024"
    using assms by (intro powr_less_mono) simp_all
  then have lt: "2 powr real_of_int k < 2 ^ 1024" by simp
  show "rnd (2 powr real_of_int k) = Fin (2 powr real_of_int k)"
    using lt by (simp add: rnd_def quantize_power_of_2[OF assms(1)])
  show "rnd (- (2 powr real_of_int k)) = Fin (- (2 powr real_of_int k))"
    using lt by (simp add: rnd_def quantize_power_of_2[OF assms(1)])
qed

lemma rnd_overflow: "rnd (2 ^ 1024) = PInf"
proof -
  have "quantize (2 powr real_of_int 1024) = 2 powr real_of_int 1024"
    by (rule quantize_power_of_2) simp
  then have "quantize (2 ^ 1024) = 2 ^ 1024" by simp
  then show ?thesis by (simp add: rnd_def inf_of_def)
qed

lemma rnd_1: "rnd 1 = Fin 1"
  using rnd_power_of_2(1)[of 0] by simp

lemma rnd_half: "rnd (1 / 2) = Fin (1 / 2)" "rnd (- (1 / 2)) = Fin (- (1 / 2))"
  using rnd_power_of_2[of "- 1"] by (simp_all add: powr_minus_divide)

lemma quantize_half: "quantize (1 / 2) = 1 / 2"
  using quantize_power_of_2(1)[of "- 1"] by (simp add: powr_minus_divide)

lemma quantize_64: "quantize 64 = 64"
  using quantize_power_of_2(1)[of 6] by simp








lemma rnd_64: "rnd 64 = Fin 64"
  using rnd_power_of_2(1)[of 6] by simp

lemmas float_eval = black_scholes_call_def black_scholes_put_def truediv_def fpow2_def Let_def
  correctly_rounded_def fdiv_def fmul_def fadd_def fsub_def zero_of_def inf_of_def
  rnd_0 rnd_1 rnd_half rnd_64

section \<open>The distribution function of the correctly rounding library\<close>

text \<open>
  The series \<open>gauss_series\<close> converges everywhere, \<open>gauss_int\<close> is the antiderivative
  of \<open>exp (- x\<^sup>2 / 2)\<close> that vanishes at 0, it is odd, increasing and bounded, and
  \<open>norm_cdf\<close> is a distribution function: its derivative is the density
  \<open>exp (- x\<^sup>2 / 2) / (2 * gauss_total)\<close>, it increases from 0 (at minus infinity) to
  1 (at plus infinity), and \<open>norm_cdf (- x) = 1 - norm_cdf x\<close>.
\<close>

lemma gauss_coeff_bound: "norm (gauss_coeff k * y ^ k) \<le> (\<bar>y\<bar> / 2) ^ k /\<^sub>R fact k"
proof -
  have "norm (gauss_coeff k * y ^ k) = (\<bar>y\<bar> / 2) ^ k / (fact k * (2 * real k + 1))"
    by (simp add: gauss_coeff_def norm_mult norm_divide norm_power power_divide abs_mult power_abs)
  also have "\<dots> \<le> (\<bar>y\<bar> / 2) ^ k / fact k"
  proof (rule frac_le)
    have "fact k * 1 \<le> fact k * (2 * real k + 1)"
      by (intro mult_left_mono) simp_all
    then show "fact k \<le> fact k * (2 * real k + 1)" by simp
  qed simp_all
  finally show ?thesis by (simp add: field_simps)
qed

lemma summable_gauss: "summable (\<lambda>k. gauss_coeff k * y ^ k)"
  by (rule summable_comparison_test[OF _ summable_exp_generic[of "\<bar>y\<bar> / 2"]])
     (use gauss_coeff_bound in blast)

lemma gauss_series_sums: "(\<lambda>k. gauss_coeff k * y ^ k) sums gauss_series y"
  unfolding gauss_series_def by (rule summable_sums[OF summable_gauss])

lemma DERIV_gauss_series:
  "(gauss_series has_real_derivative (\<Sum>k. diffs gauss_coeff k * y ^ k)) (at y)"
  using termdiffs_strong_converges_everywhere[of gauss_coeff y, OF summable_gauss]
  by (simp add: gauss_series_def[abs_def])

lemma gauss_series_ode:
  "gauss_series y + 2 * (y * (\<Sum>k. diffs gauss_coeff k * y ^ k)) = exp (- y / 2)"
proof -
  let ?D = "\<Sum>k. diffs gauss_coeff k * y ^ k"
  have "summable (\<lambda>k. diffs gauss_coeff k * y ^ k)"
    by (rule termdiff_converges_all[OF summable_gauss])
  then have "(\<lambda>k. of_nat k * gauss_coeff k * y ^ (k - Suc 0)) sums ?D"
    by (rule diffs_equiv)
  then have "(\<lambda>k. y * (of_nat k * gauss_coeff k * y ^ (k - Suc 0))) sums (y * ?D)"
    by (rule sums_mult)
  moreover have "y * (of_nat k * gauss_coeff k * y ^ (k - Suc 0)) = real k * (gauss_coeff k * y ^ k)" for k
    by (cases k) simp_all
  ultimately have "(\<lambda>k. real k * (gauss_coeff k * y ^ k)) sums (y * ?D)"
    by simp
  then have "(\<lambda>k. 2 * (real k * (gauss_coeff k * y ^ k))) sums (2 * (y * ?D))"
    by (rule sums_mult)
  with gauss_series_sums[of y]
  have "(\<lambda>k. gauss_coeff k * y ^ k + 2 * (real k * (gauss_coeff k * y ^ k))) sums
          (gauss_series y + 2 * (y * ?D))"
    by (rule sums_add)
  moreover have "gauss_coeff k * y ^ k + 2 * (real k * (gauss_coeff k * y ^ k)) = (- y / 2) ^ k /\<^sub>R fact k" for k
  proof -
    have "gauss_coeff k * y ^ k + 2 * (real k * (gauss_coeff k * y ^ k)) = (2 * real k + 1) * gauss_coeff k * y ^ k"
      by (simp add: algebra_simps)
    also have "(2 * real k + 1) * gauss_coeff k = (- 1 / 2) ^ k / fact k"
    proof -
      have "2 * real k + 1 \<noteq> 0" by (simp add: add_nonneg_eq_0_iff)
      then show ?thesis by (simp add: gauss_coeff_def)
    qed
    also have "(- 1 / 2) ^ k / fact k * y ^ k = (- y / 2) ^ k /\<^sub>R fact k"
    proof -
      have "- y / 2 = (- 1 / 2) * y" by simp
      then have "(- y / 2) ^ k = (- 1 / 2) ^ k * y ^ k"
        by (simp only: power_mult_distrib)
      then show ?thesis by (simp add: field_simps)
    qed
    finally show ?thesis .
  qed
  ultimately have "(\<lambda>k. (- y / 2) ^ k /\<^sub>R fact k) sums (gauss_series y + 2 * (y * ?D))"
    by simp
  then show ?thesis
    using exp_converges[of "- y / 2"] by (rule sums_unique2)
qed

lemma DERIV_gauss_int: "(gauss_int has_real_derivative exp (- x\<^sup>2 / 2)) (at x)"
proof -
  let ?D = "\<lambda>y. \<Sum>k. diffs gauss_coeff k * y ^ k"
  have "((\<lambda>x. gauss_series (x\<^sup>2)) has_real_derivative ?D (x\<^sup>2) * (2 * x)) (at x)"
    by (rule DERIV_chain'[OF _ DERIV_gauss_series]) (auto intro!: derivative_eq_intros)
  from DERIV_mult[OF DERIV_ident this]
  have "((\<lambda>x. x * gauss_series (x\<^sup>2)) has_real_derivative
               1 * gauss_series (x\<^sup>2) + ?D (x\<^sup>2) * (2 * x) * x) (at x)" .
  moreover have "1 * gauss_series (x\<^sup>2) + ?D (x\<^sup>2) * (2 * x) * x = exp (- x\<^sup>2 / 2)"
    using gauss_series_ode[of "x\<^sup>2"] by (simp add: power2_eq_square algebra_simps)
  ultimately show ?thesis by (simp add: gauss_int_def[abs_def])
qed

lemma gauss_int_0: "gauss_int 0 = 0"
  by (simp add: gauss_int_def)

lemma gauss_int_minus: "gauss_int (- x) = - gauss_int x"
  by (simp add: gauss_int_def)

lemma gauss_int_strict_mono: "x < y \<Longrightarrow> gauss_int x < gauss_int y"
  by (rule DERIV_pos_imp_increasing) (use DERIV_gauss_int in \<open>auto intro!: exI\<close>)

lemma gauss_int_mono: "x \<le> y \<Longrightarrow> gauss_int x \<le> gauss_int y"
  using gauss_int_strict_mono[of x y] by (cases "x = y") auto

lemma gauss_density_bound: "exp (- x\<^sup>2 / 2) \<le> exp (1 / 2 - x)" for x :: real
proof -
  have "0 \<le> (x - 1)\<^sup>2" by simp
  then have "- x\<^sup>2 / 2 \<le> 1 / 2 - x" by (simp add: power2_eq_square algebra_simps)
  then show ?thesis by simp
qed

lemma gauss_int_bound: "gauss_int x \<le> exp (1 / 2)"
proof (cases "0 \<le> x")
  case True
  have h: "gauss_int x + exp (1 / 2 - x) \<le> gauss_int 0 + exp (1 / 2 - 0)"
  proof (rule DERIV_nonpos_imp_nonincreasing[OF True])
    fix t :: real
    have "((\<lambda>t. gauss_int t + exp (1 / 2 - t)) has_real_derivative
            exp (- t\<^sup>2 / 2) + exp (1 / 2 - t) * (0 - 1)) (at t)"
      by (intro DERIV_add DERIV_gauss_int DERIV_chain'[OF _ DERIV_exp] derivative_intros)
    moreover have "exp (- t\<^sup>2 / 2) + exp (1 / 2 - t) * (0 - 1) \<le> 0"
      using gauss_density_bound[of t] by simp
    ultimately show "\<exists>y. ((\<lambda>t. gauss_int t + exp (1 / 2 - t)) has_real_derivative y) (at t) \<and> y \<le> 0"
      by blast
  qed
  have "gauss_int x + exp (1 / 2 - x) \<le> exp (1 / 2)"
    using h by (simp add: gauss_int_0)
  then show ?thesis using exp_ge_zero[of "1 / 2 - x"] by linarith
next
  case False
  then have "gauss_int x \<le> gauss_int 0" by (intro gauss_int_mono) simp
  then show ?thesis by (simp add: gauss_int_0 order_trans[OF _ less_imp_le[OF exp_gt_zero]])
qed

lemma bdd_above_gauss_int: "bdd_above (range gauss_int)"
  by (rule bdd_aboveI[of _ "exp (1 / 2)"]) (auto simp add: gauss_int_bound)

lemma gauss_int_le_total: "gauss_int x \<le> gauss_total"
  unfolding gauss_total_def by (rule cSup_upper[OF _ bdd_above_gauss_int]) simp

lemma gauss_int_less_total: "gauss_int x < gauss_total"
  using gauss_int_strict_mono[of x "x + 1"] gauss_int_le_total[of "x + 1"] by simp

lemma gauss_total_pos: "0 < gauss_total"
  using gauss_int_less_total[of 0] by (simp add: gauss_int_0)

lemma gauss_total_approached: "a < gauss_total \<Longrightarrow> \<exists>x. a < gauss_int x"
  unfolding gauss_total_def
  using less_cSup_iff[of "range gauss_int" a] bdd_above_gauss_int by auto

lemma DERIV_norm_cdf:
  "(norm_cdf has_real_derivative exp (- x\<^sup>2 / 2) / (2 * gauss_total)) (at x)"
proof -
  have "((\<lambda>x. (1 + gauss_int x / gauss_total) / 2) has_real_derivative
          (0 + exp (- x\<^sup>2 / 2) / gauss_total) / 2) (at x)"
    by (intro DERIV_cdivide DERIV_add DERIV_const DERIV_gauss_int)
  then show ?thesis by (simp add: norm_cdf_def[abs_def] mult.commute)
qed

lemma norm_cdf_minus: "norm_cdf (- x) = 1 - norm_cdf x"
  by (simp add: norm_cdf_def gauss_int_minus field_simps)

lemma norm_cdf_0: "norm_cdf 0 = 1 / 2"
  by (simp add: norm_cdf_def gauss_int_0)

lemma norm_cdf_less_1: "norm_cdf x < 1"
  using gauss_int_less_total[of x] gauss_total_pos by (simp add: norm_cdf_def field_simps)

lemma norm_cdf_pos: "0 < norm_cdf x"
  using norm_cdf_less_1[of "- x"] by (simp add: norm_cdf_minus)

lemma norm_cdf_mono: "x \<le> y \<Longrightarrow> norm_cdf x \<le> norm_cdf y"
  using gauss_int_mono[of x y] gauss_total_pos by (simp add: norm_cdf_def divide_right_mono)

lemma norm_cdf_at_bot: "(norm_cdf \<longlongrightarrow> 0) at_bot"
proof (rule order_tendstoI)
  fix a :: real
  assume "a < 0"
  then show "eventually (\<lambda>x. a < norm_cdf x) at_bot"
    using norm_cdf_pos by (auto intro!: always_eventually simp add: less_trans)
next
  fix a :: real
  assume a: "0 < a"
  have "(1 - 2 * a) * gauss_total < gauss_total"
    using a gauss_total_pos by simp
  then obtain x0 where x0: "(1 - 2 * a) * gauss_total < gauss_int x0"
    using gauss_total_approached by blast
  have "norm_cdf (- x0) < a"
    using x0 gauss_total_pos by (simp add: norm_cdf_def gauss_int_minus field_simps)
  then have "\<forall>x \<le> - x0. norm_cdf x < a"
    using norm_cdf_mono by (meson le_less_trans)
  then show "eventually (\<lambda>x. norm_cdf x < a) at_bot"
    unfolding eventually_at_bot_linorder by blast
qed

lemma norm_cdf_at_top: "(norm_cdf \<longlongrightarrow> 1) at_top"
proof -
  have "((\<lambda>x. 1 - norm_cdf (- x)) \<longlongrightarrow> 1 - 0) at_top"
    by (intro tendsto_diff tendsto_const filterlim_compose[OF norm_cdf_at_bot]
        filterlim_uminus_at_bot_at_top)
  then show ?thesis by (simp add: norm_cdf_minus)
qed

text \<open>
  These properties determine \<open>norm_cdf\<close>: it is the only distribution function whose
  density is proportional to \<open>exp (- x\<^sup>2 / 2)\<close>.
\<close>

lemma norm_cdf_unique:
  fixes F :: "real \<Rightarrow> real"
  assumes der: "\<And>x. (F has_real_derivative c * exp (- x\<^sup>2 / 2)) (at x)"
    and bot: "(F \<longlongrightarrow> 0) at_bot"
    and top: "(F \<longlongrightarrow> 1) at_top"
  shows "F = norm_cdf"
proof -
  define a where "a = c * (2 * gauss_total)"
  define G where "G = (\<lambda>x. F x - a * norm_cdf x)"
  have "(G has_real_derivative 0) (at x)" for x
  proof -
    have "((\<lambda>x. F x - a * norm_cdf x) has_real_derivative
            c * exp (- x\<^sup>2 / 2) - a * (exp (- x\<^sup>2 / 2) / (2 * gauss_total))) (at x)"
      by (intro DERIV_diff der DERIV_cmult DERIV_norm_cdf)
    moreover have "c * exp (- x\<^sup>2 / 2) - a * (exp (- x\<^sup>2 / 2) / (2 * gauss_total)) = 0"
      using gauss_total_pos by (simp add: a_def)
    ultimately show ?thesis by (simp add: G_def)
  qed
  then have const: "G x = G 0" for x
    using DERIV_isconst_all[of G x 0] by blast
  then have Gc: "G = (\<lambda>x. G 0)" by (intro ext)
  have "(G \<longlongrightarrow> 0 - a * 0) at_bot"
    unfolding G_def by (intro tendsto_diff tendsto_mult tendsto_const bot norm_cdf_at_bot)
  moreover have "(G \<longlongrightarrow> G 0) at_bot"
    by (subst Gc) (rule tendsto_const)
  ultimately have G0: "G 0 = 0"
    using tendsto_unique[of at_bot G "G 0" "0 - a * 0"] by simp
  have "(G \<longlongrightarrow> 1 - a * 1) at_top"
    unfolding G_def by (intro tendsto_diff tendsto_mult tendsto_const top norm_cdf_at_top)
  moreover have "(G \<longlongrightarrow> G 0) at_top"
    by (subst Gc) (rule tendsto_const)
  ultimately have "G 0 = 1 - a * 1"
    using tendsto_unique[of at_top G "G 0" "1 - a * 1"] by simp
  with G0 have "a = 1" by simp
  then have "F x = norm_cdf x" for x
    using const[of x] G0 by (simp add: G_def)
  then show ?thesis by (rule ext)
qed

section \<open>Properties of the axes\<close>



lemma linspace_same_10:
  assumes "quantize a = a"
  shows "linspace a a 10 = [a, a, a, a, a, a, a, a, a, a]"
  using assms
  by (simp add: linspace_def Let_def quantize_0 upt_rec[of _ "numeral _"] upt_rec[of _ "Suc _"]
      eval_nat_numeral)

lemma strict_sorted_remdups_adj:
  "sorted xs \<Longrightarrow> sorted_wrt (<) (remdups_adj xs)"
  for xs :: "real list"
proof (induction xs rule: remdups_adj.induct)
  case (3 x y xs)
  then show ?case by (cases "x = y") (auto simp add: less_le)
qed simp_all

lemma sorted_unique: "sorted_wrt (<) (unique xs)"
  by (simp add: unique_def strict_sorted_remdups_adj)

lemma set_unique: "set (unique xs) = set xs"
  by (simp add: unique_def)


lemma distinct_count_list_1: "distinct xs \<Longrightarrow> x \<in> set xs \<Longrightarrow> count_list xs x = 1"
  by (induction xs) auto

lemma sigma_in_volatilities: "sigma \<in> set (volatilities lo hi sigma)"
  by (simp add: volatilities_def set_unique np_append_def)



text \<open>
  C6: the base volatility \<open>sigma\<close> is a member of the volatility axis and occurs in it
  exactly once, whether or not the ten uniform samples already contain it.
\<close>

theorem base_volatility_once:
  "sigma \<in> set (volatilities min_sigma max_sigma sigma) \<and>
   count_list (volatilities min_sigma max_sigma sigma) sigma = 1"
proof -
  have "distinct (volatilities min_sigma max_sigma sigma)"
    using sorted_unique[of "np_append (linspace min_sigma max_sigma 10) sigma"]
    by (simp add: strict_sorted_iff volatilities_def)
  then show ?thesis
    using sigma_in_volatilities[of sigma min_sigma max_sigma]
    by (simp add: distinct_count_list_1)
qed




section \<open>When the pricing functions raise\<close>

lemma call_zero_division_iff:
  "black_scholes_call lib S K T r sg = Inl ZeroDivisionError \<longleftrightarrow> is_py S \<and> is_zero K"
  by (simp add: black_scholes_call_def truediv_def fpow2_def Let_def)

lemma put_zero_division_iff:
  "black_scholes_put lib S K T r sg = Inl ZeroDivisionError \<longleftrightarrow> is_py S \<and> is_zero K"
  by (simp add: black_scholes_put_def truediv_def fpow2_def Let_def)

lemma call_overflow_iff:
  "black_scholes_call lib S K T r sg = Inl OverflowError \<longleftrightarrow>
     \<not> (is_py S \<and> is_zero K) \<and> is_py sg \<and> \<not> is_inf (num sg) \<and> is_inf (square lib (num sg))"
  by (simp add: black_scholes_call_def truediv_def fpow2_def Let_def)

lemma put_overflow_iff:
  "black_scholes_put lib S K T r sg = Inl OverflowError \<longleftrightarrow>
     \<not> (is_py S \<and> is_zero K) \<and> is_py sg \<and> \<not> is_inf (num sg) \<and> is_inf (square lib (num sg))"
  by (simp add: black_scholes_put_def truediv_def fpow2_def Let_def)

lemma call_returns_iff:
  "(\<exists>v. black_scholes_call lib S K T r sg = Inr v) \<longleftrightarrow>
     \<not> (is_py S \<and> is_zero K) \<and> \<not> (is_py sg \<and> \<not> is_inf (num sg) \<and> is_inf (square lib (num sg)))"
  by (simp add: black_scholes_call_def truediv_def fpow2_def Let_def)

lemma put_returns_iff:
  "(\<exists>v. black_scholes_put lib S K T r sg = Inr v) \<longleftrightarrow>
     \<not> (is_py S \<and> is_zero K) \<and> \<not> (is_py sg \<and> \<not> is_inf (num sg) \<and> is_inf (square lib (num sg)))"
  by (simp add: black_scholes_put_def truediv_def fpow2_def Let_def)

section \<open>Properties of the grids\<close>

lemma comprehension_Inr:
  "(\<And>x. x \<in> set xs \<Longrightarrow> f x = Inr (g x)) \<Longrightarrow> comprehension f xs = Inr (map g xs)"
  by (induction xs) simp_all

lemma call_on_arrays:
  "black_scholes_call lib (NpFloat64 s) K T r (NpFloat64 v) =
     Inr (projr (black_scholes_call lib (NpFloat64 s) K T r (NpFloat64 v)))"
  using call_returns_iff[of lib "NpFloat64 s" K T r "NpFloat64 v"] by auto

lemma put_on_arrays:
  "black_scholes_put lib (NpFloat64 s) K T r (NpFloat64 v) =
     Inr (projr (black_scholes_put lib (NpFloat64 s) K T r (NpFloat64 v)))"
  using put_returns_iff[of lib "NpFloat64 s" K T r "NpFloat64 v"] by auto

lemma call_prices_eq:
  "call_prices lib K T r spots vols =
     Inr (map (\<lambda>v. map (\<lambda>S. projr (black_scholes_call lib (NpFloat64 (Fin S)) (Fin K) (Fin T)
        (Fin r) (NpFloat64 (Fin v)))) spots) vols)"
  unfolding call_prices_def
  by (intro comprehension_Inr call_on_arrays)

lemma put_prices_eq:
  "put_prices lib K T r spots vols =
     Inr (map (\<lambda>v. map (\<lambda>S. projr (black_scholes_put lib (NpFloat64 (Fin S)) (Fin K) (Fin T)
        (Fin r) (NpFloat64 (Fin v)))) spots) vols)"
  unfolding put_prices_def
  by (intro comprehension_Inr put_on_arrays)

lemma volatilities_example: "volatilities (1/2) (1/2) (1/4) = [1/4, 1/2]"
  by (simp add: volatilities_def unique_def np_append_def linspace_same_10 quantize_half)

lemma spot_prices_example: "spot_prices 64 64 = [64, 64, 64, 64, 64, 64, 64, 64, 64, 64]"
  by (simp add: spot_prices_def linspace_same_10 quantize_64)

text \<open>
  C5: the call grid and the put grid have one row for each element of the volatility axis
  and one column for each element of the spot axis, and the cell in row \<open>i\<close> and column
  \<open>j\<close> is what the pricing function returns at the spot \<open>spot_prices ! j\<close> and
  the volatility \<open>volatilities ! i\<close>, with \<open>K\<close>, \<open>T\<close> and \<open>r\<close> the base values.
\<close>

theorem grid_shape_and_cells:
  "\<exists>cg pg.
     call_prices lib K T r (spot_prices min_S max_S) (volatilities min_sigma max_sigma sigma) = Inr cg \<and>
     put_prices lib K T r (spot_prices min_S max_S) (volatilities min_sigma max_sigma sigma) = Inr pg \<and>
     length cg = length (volatilities min_sigma max_sigma sigma) \<and>
     length pg = length (volatilities min_sigma max_sigma sigma) \<and>
     (\<forall>i < length (volatilities min_sigma max_sigma sigma).
        length (cg ! i) = length (spot_prices min_S max_S) \<and>
        length (pg ! i) = length (spot_prices min_S max_S) \<and>
        (\<forall>j < length (spot_prices min_S max_S).
           black_scholes_call lib (NpFloat64 (Fin (spot_prices min_S max_S ! j))) (Fin K) (Fin T)
              (Fin r) (NpFloat64 (Fin (volatilities min_sigma max_sigma sigma ! i))) = Inr (cg ! i ! j) \<and>
           black_scholes_put lib (NpFloat64 (Fin (spot_prices min_S max_S ! j))) (Fin K) (Fin T)
              (Fin r) (NpFloat64 (Fin (volatilities min_sigma max_sigma sigma ! i))) = Inr (pg ! i ! j)))"
  by (simp add: call_prices_eq put_prices_eq call_on_arrays[symmetric] put_on_arrays[symmetric])

theorem grid_shape_and_cells_witness:
  "\<exists>cg pg.
     call_prices correctly_rounded 64 1 0 (spot_prices 64 64) (volatilities (1/2) (1/2) (1/4)) = Inr cg \<and>
     put_prices correctly_rounded 64 1 0 (spot_prices 64 64) (volatilities (1/2) (1/2) (1/4)) = Inr pg \<and>
     length cg = 2 \<and> length pg = 2 \<and> length (cg ! 1) = 10 \<and> length (pg ! 1) = 10 \<and>
     black_scholes_call correctly_rounded (NpFloat64 (Fin 64)) (Fin 64) (Fin 1) (Fin 0)
       (NpFloat64 (Fin (1/2))) = Inr (cg ! 1 ! 3) \<and>
     black_scholes_put correctly_rounded (NpFloat64 (Fin 64)) (Fin 64) (Fin 1) (Fin 0)
       (NpFloat64 (Fin (1/2))) = Inr (pg ! 1 ! 3)"
proof -
  let ?vols = "volatilities (1/2) (1/2) (1/4)" and ?spots = "spot_prices 64 64"
  obtain cg pg where g:
     "call_prices correctly_rounded 64 1 0 ?spots ?vols = Inr cg"
     "put_prices correctly_rounded 64 1 0 ?spots ?vols = Inr pg"
     "length cg = length ?vols" "length pg = length ?vols"
     "\<forall>i < length ?vols.
        length (cg ! i) = length ?spots \<and> length (pg ! i) = length ?spots \<and>
        (\<forall>j < length ?spots.
           black_scholes_call correctly_rounded (NpFloat64 (Fin (?spots ! j))) (Fin 64) (Fin 1)
              (Fin 0) (NpFloat64 (Fin (?vols ! i))) = Inr (cg ! i ! j) \<and>
           black_scholes_put correctly_rounded (NpFloat64 (Fin (?spots ! j))) (Fin 64) (Fin 1)
              (Fin 0) (NpFloat64 (Fin (?vols ! i))) = Inr (pg ! i ! j))"
    using grid_shape_and_cells[of correctly_rounded 64 1 0 64 64 "1/2" "1/2" "1/4"] by blast
  have "1 < length ?vols" "3 < length ?spots"
    by (simp_all add: volatilities_example spot_prices_example)
  with g(5) have
    "length (cg ! 1) = length ?spots" "length (pg ! 1) = length ?spots"
    "black_scholes_call correctly_rounded (NpFloat64 (Fin (?spots ! 3))) (Fin 64) (Fin 1)
              (Fin 0) (NpFloat64 (Fin (?vols ! 1))) = Inr (cg ! 1 ! 3)"
    "black_scholes_put correctly_rounded (NpFloat64 (Fin (?spots ! 3))) (Fin 64) (Fin 1)
              (Fin 0) (NpFloat64 (Fin (?vols ! 1))) = Inr (pg ! 1 ! 3)"
    by blast+
  then show ?thesis using g(1-4)
    by (simp add: volatilities_example spot_prices_example)
qed

lemma call_sigma_kind:
  assumes "\<not> (is_inf (square lib x) \<and> \<not> is_inf x)"
  shows "black_scholes_call lib S K T r (PyFloat x) = black_scholes_call lib S K T r (NpFloat64 x)"
proof -
  have h: "fpow2 lib (PyFloat x) = fpow2 lib (NpFloat64 x)"
    using assms by (auto simp add: fpow2_def)
  show ?thesis unfolding black_scholes_call_def h num.simps ..
qed

lemma put_sigma_kind:
  assumes "\<not> (is_inf (square lib x) \<and> \<not> is_inf x)"
  shows "black_scholes_put lib S K T r (PyFloat x) = black_scholes_put lib S K T r (NpFloat64 x)"
proof -
  have h: "fpow2 lib (PyFloat x) = fpow2 lib (NpFloat64 x)"
    using assms by (auto simp add: fpow2_def)
  show ?thesis unfolding black_scholes_put_def h num.simps ..
qed

lemma call_price_returned:
  assumes "call_price lib S K T r sigma = Inr c"
  shows "\<not> (is_inf (square lib (Fin sigma)) \<and> \<not> is_inf (Fin sigma))"
  using call_returns_iff[of lib "PyFloat (Fin S)" "Fin K" "Fin T" "Fin r" "PyFloat (Fin sigma)"] assms
  by (auto simp add: call_price_def)

lemma line_spot_call_eq:
  assumes "call_price lib S K T r sigma = Inr c"
  shows "line_spot_call lib K T r sigma spots =
     Inr (map (\<lambda>S. projr (black_scholes_call lib (NpFloat64 (Fin S)) (Fin K) (Fin T) (Fin r)
        (NpFloat64 (Fin sigma)))) spots)"
  unfolding line_spot_call_def call_sigma_kind[OF call_price_returned[OF assms]]
  by (intro comprehension_Inr call_on_arrays)

lemma line_spot_put_eq:
  assumes "call_price lib S K T r sigma = Inr c"
  shows "line_spot_put lib K T r sigma spots =
     Inr (map (\<lambda>S. projr (black_scholes_put lib (NpFloat64 (Fin S)) (Fin K) (Fin T) (Fin r)
        (NpFloat64 (Fin sigma)))) spots)"
  unfolding line_spot_put_def put_sigma_kind[OF call_price_returned[OF assms]]
  by (intro comprehension_Inr put_on_arrays)

text \<open>
  C8: in every sweep (the script reaches it when line 53 has returned) whose volatility
  axis holds the base volatility at row \<open>i\<close>, the prices along the spot axis at the
  base volatility (the two traces of the line plot) are row \<open>i\<close> of the call grid and
  of the put grid.
\<close>

theorem spot_slice_is_grid_row:
  assumes "call_price lib S K T r sigma = Inr c"
    and "i < length (volatilities min_sigma max_sigma sigma)"
    and "volatilities min_sigma max_sigma sigma ! i = sigma"
  shows "\<exists>cg pg.
     call_prices lib K T r (spot_prices min_S max_S) (volatilities min_sigma max_sigma sigma) = Inr cg \<and>
     put_prices lib K T r (spot_prices min_S max_S) (volatilities min_sigma max_sigma sigma) = Inr pg \<and>
     line_spot_call lib K T r sigma (spot_prices min_S max_S) = Inr (cg ! i) \<and>
     line_spot_put lib K T r sigma (spot_prices min_S max_S) = Inr (pg ! i)"
  using assms(2,3)
  by (simp add: call_prices_eq put_prices_eq line_spot_call_eq[OF assms(1)]
      line_spot_put_eq[OF assms(1)])

lemma square_quarter: "lib_pow2 correctly_rounded (1/2) = Fin (1/4)"
proof -
  have "rnd (2 powr real_of_int (- 2)) = Fin (2 powr real_of_int (- 2))"
    by (rule rnd_power_of_2) simp_all
  then have "rnd (1 / 4) = Fin (1 / 4)" by (simp add: powr_minus_divide)
  then show ?thesis by (simp add: correctly_rounded_def)
qed

theorem spot_slice_is_grid_row_witness:
  "\<exists>cg pg.
     call_prices correctly_rounded 64 1 0 (spot_prices 64 64) (volatilities (1/2) (1/2) (1/2)) = Inr cg \<and>
     put_prices correctly_rounded 64 1 0 (spot_prices 64 64) (volatilities (1/2) (1/2) (1/2)) = Inr pg \<and>
     line_spot_call correctly_rounded 64 1 0 (1/2) (spot_prices 64 64) = Inr (cg ! 0) \<and>
     line_spot_put correctly_rounded 64 1 0 (1/2) (spot_prices 64 64) = Inr (pg ! 0)"
proof -
  have v: "volatilities (1/2) (1/2) (1/2) = [1/2]"
    by (simp add: volatilities_def unique_def np_append_def linspace_same_10 quantize_half)
  have "\<exists>c. black_scholes_call correctly_rounded (PyFloat (Fin 64)) (Fin 64) (Fin 1) (Fin 0)
          (PyFloat (Fin (1/2))) = Inr c"
    unfolding call_returns_iff by (simp add: square_quarter)
  then obtain c where "call_price correctly_rounded 64 64 1 0 (1/2) = Inr c"
    by (auto simp add: call_price_def)
  moreover have "0 < length (volatilities (1/2) (1/2) (1/2))" "volatilities (1/2) (1/2) (1/2) ! 0 = 1/2"
    by (simp_all add: v)
  ultimately show ?thesis
    by (rule spot_slice_is_grid_row)
qed

section \<open>Degenerate and invalid inputs\<close>

subsection \<open>Zero volatility or zero maturity\<close>
















subsection \<open>Parameters outside their ranges\<close>

text \<open>
  C4, as stated, says that a spot or strike that is not positive, or a negative maturity,
  rate or volatility, is rejected with InvalidParameter before the formula is evaluated.
  The pricing functions check nothing: with spot 0 (which the spot widget admits, its
  lower bound being 0.0), strike 1, maturity 1, rate 0 and volatility 1 they return the
  call price 0 and the put price 1.
\<close>

theorem invalid_parameter_counterexample:
  "black_scholes_call correctly_rounded (PyFloat (Fin 0)) (Fin 1) (Fin 1) (Fin 0) (PyFloat (Fin 1)) = Inr (Fin 0) \<and>
   black_scholes_put correctly_rounded (PyFloat (Fin 0)) (Fin 1) (Fin 1) (Fin 0) (PyFloat (Fin 1)) = Inr (Fin 1)"
  by (simp add: float_eval)

text \<open>
  C4, amended: the pricing functions validate no parameter and have no InvalidParameter
  error. They raise ZeroDivisionError exactly when the strike is a zero and the spot is a
  Python float, and otherwise OverflowError exactly when the volatility is a finite
  Python float whose square overflows; on every other input, with spot, strike, maturity,
  rate or volatility negative or zero included, they evaluate the formula and return a
  float (which may be NaN or infinite).
\<close>

theorem no_parameter_validation:
  "(black_scholes_call lib S K T r sigma = Inl ZeroDivisionError \<longleftrightarrow> is_py S \<and> is_zero K) \<and>
   (black_scholes_put lib S K T r sigma = Inl ZeroDivisionError \<longleftrightarrow> is_py S \<and> is_zero K) \<and>
   (black_scholes_call lib S K T r sigma = Inl OverflowError \<longleftrightarrow>
      \<not> (is_py S \<and> is_zero K) \<and>
      is_py sigma \<and> \<not> is_inf (num sigma) \<and> is_inf (square lib (num sigma))) \<and>
   (black_scholes_put lib S K T r sigma = Inl OverflowError \<longleftrightarrow>
      \<not> (is_py S \<and> is_zero K) \<and>
      is_py sigma \<and> \<not> is_inf (num sigma) \<and> is_inf (square lib (num sigma))) \<and>
   ((\<exists>v. black_scholes_call lib S K T r sigma = Inr v) \<longleftrightarrow>
      \<not> (is_py S \<and> is_zero K) \<and>
      \<not> (is_py sigma \<and> \<not> is_inf (num sigma) \<and> is_inf (square lib (num sigma)))) \<and>
   ((\<exists>v. black_scholes_put lib S K T r sigma = Inr v) \<longleftrightarrow>
      \<not> (is_py S \<and> is_zero K) \<and>
      \<not> (is_py sigma \<and> \<not> is_inf (num sigma) \<and> is_inf (square lib (num sigma))))"
  using call_zero_division_iff[of lib S K T r sigma] put_zero_division_iff[of lib S K T r sigma]
    call_overflow_iff[of lib S K T r sigma] put_overflow_iff[of lib S K T r sigma]
    call_returns_iff[of lib S K T r sigma] put_returns_iff[of lib S K T r sigma]
  by blast

lemma square_overflows: "lib_pow2 correctly_rounded (2 ^ 512) = PInf"
  using rnd_overflow by (simp add: correctly_rounded_def)

theorem no_parameter_validation_witness:
  "black_scholes_call correctly_rounded (PyFloat (Fin 64)) (Fin 0) (Fin 1) (Fin 0) (PyFloat (Fin 1)) =
     Inl ZeroDivisionError \<and>
   black_scholes_put correctly_rounded (PyFloat (Fin 64)) (Fin 0) (Fin 1) (Fin 0) (PyFloat (Fin 1)) =
     Inl ZeroDivisionError \<and>
   black_scholes_call correctly_rounded (PyFloat (Fin 64)) (Fin 64) (Fin 1) (Fin 0) (PyFloat (Fin (2 ^ 512))) =
     Inl OverflowError \<and>
   black_scholes_put correctly_rounded (PyFloat (Fin 64)) (Fin 64) (Fin 1) (Fin 0) (PyFloat (Fin (2 ^ 512))) =
     Inl OverflowError \<and>
   (\<exists>v. black_scholes_call correctly_rounded (PyFloat (Fin (- 1))) (Fin (- 1)) (Fin (- 1)) (Fin (- 1))
          (PyFloat (Fin (- 1))) = Inr v) \<and>
   (\<exists>v. black_scholes_put correctly_rounded (PyFloat (Fin (- 1))) (Fin (- 1)) (Fin (- 1)) (Fin (- 1))
          (PyFloat (Fin (- 1))) = Inr v)"
proof -
  have m: "lib_pow2 correctly_rounded (- 1) = Fin 1"
    by (simp add: correctly_rounded_def rnd_1)
  have p: "lib_pow2 correctly_rounded 1 = Fin 1"
    by (simp add: correctly_rounded_def rnd_1)
  show ?thesis
    using no_parameter_validation[of correctly_rounded "PyFloat (Fin 64)" "Fin 0" "Fin 1" "Fin 0"
            "PyFloat (Fin 1)"]
          no_parameter_validation[of correctly_rounded "PyFloat (Fin 64)" "Fin 64" "Fin 1" "Fin 0"
            "PyFloat (Fin (2 ^ 512))"]
          no_parameter_validation[of correctly_rounded "PyFloat (Fin (- 1))" "Fin (- 1)" "Fin (- 1)"
            "Fin (- 1)" "PyFloat (Fin (- 1))"]
          square_overflows
    by (simp add: m p)
qed

end
